theory Spec2Isabelle
  imports Complex_Main
begin

section \<open>JavaScript numbers\<close>

text \<open>
  The component computes with JavaScript numbers. They are modelled as exact rationals
  extended with the three special values the arithmetic of the component can produce:
  \<open>NaN\<close>, \<open>+Infinity\<close> and \<open>-Infinity\<close>. The operators follow ECMAScript on these
  values (a division by zero gives an infinity or \<open>NaN\<close>, every comparison with
  \<open>NaN\<close> is false, \<open>Infinity - Infinity\<close> and \<open>0 * Infinity\<close> are \<open>NaN\<close>).
  Two things of binary64 are left out: the rounding of a finite result to the nearest
  double, and the sign of zero (every zero is \<open>+0\<close>, which is the zero a subtraction
  \<open>x - x\<close> produces and the only zero the divisors of this component can be).
\<close>

datatype num = NaN | NInf | Fin rat | PInf

instantiation num :: "{plus, minus, times, inverse, ord}"
begin

fun plus_num :: "num \<Rightarrow> num \<Rightarrow> num" where
  "Fin a + Fin b = Fin (a + b)"
| "Fin a + PInf = PInf"
| "Fin a + NInf = NInf"
| "PInf + Fin b = PInf"
| "PInf + PInf = PInf"
| "PInf + NInf = NaN"
| "NInf + Fin b = NInf"
| "NInf + NInf = NInf"
| "NInf + PInf = NaN"
| "NaN + (y::num) = NaN"
| "(x::num) + NaN = NaN"

fun minus_num :: "num \<Rightarrow> num \<Rightarrow> num" where
  "Fin a - Fin b = Fin (a - b)"
| "Fin a - PInf = NInf"
| "Fin a - NInf = PInf"
| "PInf - Fin b = PInf"
| "PInf - NInf = PInf"
| "PInf - PInf = NaN"
| "NInf - Fin b = NInf"
| "NInf - PInf = NInf"
| "NInf - NInf = NaN"
| "NaN - (y::num) = NaN"
| "(x::num) - NaN = NaN"

fun times_num :: "num \<Rightarrow> num \<Rightarrow> num" where
  "Fin a * Fin b = Fin (a * b)"
| "Fin a * PInf = (if a = 0 then NaN else if 0 < a then PInf else NInf)"
| "Fin a * NInf = (if a = 0 then NaN else if 0 < a then NInf else PInf)"
| "PInf * Fin b = (if b = 0 then NaN else if 0 < b then PInf else NInf)"
| "NInf * Fin b = (if b = 0 then NaN else if 0 < b then NInf else PInf)"
| "PInf * PInf = PInf"
| "PInf * NInf = NInf"
| "NInf * PInf = NInf"
| "NInf * NInf = PInf"
| "NaN * (y::num) = NaN"
| "(x::num) * NaN = NaN"

fun divide_num :: "num \<Rightarrow> num \<Rightarrow> num" where
  "divide_num (Fin a) (Fin b) =
     (if b = 0 then (if a = 0 then NaN else if 0 < a then PInf else NInf)
      else Fin (a / b))"
| "divide_num (Fin a) PInf = Fin 0"
| "divide_num (Fin a) NInf = Fin 0"
| "divide_num PInf (Fin b) = (if 0 \<le> b then PInf else NInf)"
| "divide_num NInf (Fin b) = (if 0 \<le> b then NInf else PInf)"
| "divide_num PInf PInf = NaN"
| "divide_num PInf NInf = NaN"
| "divide_num NInf PInf = NaN"
| "divide_num NInf NInf = NaN"
| "divide_num NaN y = NaN"
| "divide_num x NaN = NaN"

definition inverse_num :: "num \<Rightarrow> num" where
  "inverse_num x = divide (Fin 1) (x::num)"

fun less_eq_num :: "num \<Rightarrow> num \<Rightarrow> bool" where
  "(Fin a \<le> Fin b) = (a \<le> b)"
| "(Fin a \<le> PInf) = True"
| "(Fin a \<le> NInf) = False"
| "(PInf \<le> Fin b) = False"
| "(PInf \<le> PInf) = True"
| "(PInf \<le> NInf) = False"
| "(NInf \<le> Fin b) = True"
| "(NInf \<le> PInf) = True"
| "(NInf \<le> NInf) = True"
| "(NaN \<le> (y::num)) = False"
| "((x::num) \<le> NaN) = False"

fun less_num :: "num \<Rightarrow> num \<Rightarrow> bool" where
  "(Fin a < Fin b) = (a < b)"
| "(Fin a < PInf) = True"
| "(Fin a < NInf) = False"
| "(PInf < Fin b) = False"
| "(PInf < PInf) = False"
| "(PInf < NInf) = False"
| "(NInf < Fin b) = True"
| "(NInf < PInf) = True"
| "(NInf < NInf) = False"
| "(NaN < (y::num)) = False"
| "((x::num) < NaN) = False"

instance ..

end

text \<open>\<open>a === b\<close> on numbers: \<open>NaN\<close> is not equal to itself.\<close>

definition strict_eq :: "num \<Rightarrow> num \<Rightarrow> bool" where
  "strict_eq a b = (a \<noteq> NaN \<and> a = b)"

text \<open>\<open>Math.max\<close>, \<open>Math.min\<close>: \<open>NaN\<close> if an argument is \<open>NaN\<close>.\<close>

definition Math_max :: "num \<Rightarrow> num \<Rightarrow> num" where
  "Math_max a b = (if a = NaN \<or> b = NaN then NaN else if a \<le> b then b else a)"

definition Math_min :: "num \<Rightarrow> num \<Rightarrow> num" where
  "Math_min a b = (if a = NaN \<or> b = NaN then NaN else if a \<le> b then a else b)"

text \<open>\<open>Math.round\<close>: the nearest integer, a tie going up; the special values are kept.\<close>

fun Math_round :: "num \<Rightarrow> num" where
  "Math_round (Fin a) = Fin (of_int \<lfloor>a + 1 / 2\<rfloor>)"
| "Math_round x = x"

text \<open>
  Modelled from the spec: \<open>between\<close> of \<open>utils/format.js\<close>, which is imported by the
  component and is not among its sources. The spec calls it \<open>clamp(v, lo, hi)\<close> and says
  of the thumb size \<open>clamp(containerExtent^2 / contentExtent, 50, containerExtent)\<close> that
  the thumb may exceed the container when \<open>containerExtent < 50\<close>: where the upper bound
  is not above the lower bound, the lower bound is the result.
\<close>

definition between :: "num \<Rightarrow> num \<Rightarrow> num \<Rightarrow> num" where
  "between v lo hi = (if hi \<le> lo then lo else Math_min hi (Math_max lo v))"

section \<open>The state of a scroll area\<close>

datatype axis = Vertical | Horizontal

datatype direction = Up | Down | Left | Right

datatype offset_key = OffsetY | OffsetX
datatype scroll_key = ScrollTop | ScrollLeft
datatype dist_key = X | Y

record dir_props =
  prop_offset :: offset_key
  prop_scroll :: scroll_key
  prop_dir :: direction
  prop_dist :: dist_key

definition axisList :: "string list" where
  "axisList = [''vertical'', ''horizontal'']"

fun dirProps :: "axis \<Rightarrow> dir_props" where
  "dirProps Vertical =
     \<lparr>prop_offset = OffsetY, prop_scroll = ScrollTop, prop_dir = Down, prop_dist = Y\<rparr>"
| "dirProps Horizontal =
     \<lparr>prop_offset = OffsetX, prop_scroll = ScrollLeft, prop_dir = Right, prop_dist = X\<rparr>"

text \<open>
  The refs and variables of \<open>setup\<close>, the two props the logic reads, the two properties
  of the scroll target the component assigns, and what the component does to the world
  around it: the pending timeouts of the event loop (identifier and due time, in
  milliseconds of a logical clock), the lines written by \<open>console.error\<close>, the calls of
  \<open>setVerticalScrollPosition\<close> and \<open>setHorizontalScrollPosition\<close>, the calls of the
  debounced \<open>emitScroll\<close>, and the mouse events dispatched on a thumb.
  \<open>scrollTop\<close> and \<open>scrollLeft\<close> hold the number last assigned by the component;
  what the browser makes of it (clamping to the scrollable range, the scroll event that
  follows) is the scroll observer's business and arrives as \<open>updateScroll\<close>.
\<close>

record state =
  props_visible :: "bool option"
  props_delay :: nat
  tempShowing :: bool
  panning :: bool
  hover :: bool
  container_vertical :: num
  container_horizontal :: num
  vertical_ref :: bool
  vertical_position :: num
  vertical_size :: num
  horizontal_ref :: bool
  horizontal_position :: num
  horizontal_size :: num
  timer :: "nat option"
  panRefPos :: "num option"
  scrollTop :: num
  scrollLeft :: num
  clock :: nat
  timeouts :: "(nat \<times> nat) list"
  next_timeout :: nat
  console_errors :: "string list"
  scroll_calls :: "(axis \<times> num \<times> num option) list"
  has_onScroll :: bool
  emitScroll_calls :: nat
  dispatched :: "axis list"

fun container :: "axis \<Rightarrow> state \<Rightarrow> num" where
  "container Vertical s = container_vertical s"
| "container Horizontal s = container_horizontal s"

fun position :: "axis \<Rightarrow> state \<Rightarrow> num" where
  "position Vertical s = vertical_position s"
| "position Horizontal s = horizontal_position s"

fun scroll_size :: "axis \<Rightarrow> state \<Rightarrow> num" where
  "scroll_size Vertical s = vertical_size s"
| "scroll_size Horizontal s = horizontal_size s"

fun thumb_ref :: "axis \<Rightarrow> state \<Rightarrow> bool" where
  "thumb_ref Vertical s = vertical_ref s"
| "thumb_ref Horizontal s = horizontal_ref s"

text \<open>The state \<open>setup\<close> builds, with the default props and no \<open>onScroll\<close> listener.\<close>

definition init :: state where
  "init = \<lparr>props_visible = None, props_delay = 1000,
     tempShowing = False, panning = False, hover = False,
     container_vertical = Fin 0, container_horizontal = Fin 0,
     vertical_ref = False, vertical_position = Fin 0, vertical_size = Fin 0,
     horizontal_ref = False, horizontal_position = Fin 0, horizontal_size = Fin 0,
     timer = None, panRefPos = None, scrollTop = Fin 0, scrollLeft = Fin 0,
     clock = 0, timeouts = [], next_timeout = 0, console_errors = [],
     scroll_calls = [], has_onScroll = False, emitScroll_calls = 0, dispatched = []\<rparr>"

section \<open>Derived geometry\<close>


definition thumbHidden :: "axis \<Rightarrow> state \<Rightarrow> bool" where
  "thumbHidden ax s =
     (((case props_visible s of None \<Rightarrow> hover s | Some v \<Rightarrow> v) \<noteq> True
        \<and> tempShowing s = False
        \<and> panning s = False)
      \<or> scroll_size ax s \<le> container ax s + Fin 1)"

definition thumbSize :: "axis \<Rightarrow> state \<Rightarrow> num" where
  "thumbSize ax s =
     Math_round
       (between (container ax s * container ax s / scroll_size ax s) (Fin 50) (container ax s))"



section \<open>Timers\<close>

text \<open>
  \<open>setTimeout\<close> and \<open>clearTimeout\<close> of the host, on the list of pending timeouts.
  \<open>setTimeout\<close> returns a fresh identifier; \<open>clearTimeout(undefined)\<close> does nothing.
  The only callback this component ever schedules is \<open>() => { tempShowing.value = false }\<close>,
  so a pending timeout is its identifier and the time at which it is due.
\<close>

definition clearTimeout :: "nat option \<Rightarrow> state \<Rightarrow> state" where
  "clearTimeout t s =
     (case t of
        None \<Rightarrow> s
      | Some i \<Rightarrow> s\<lparr>timeouts := filter (\<lambda>p. fst p \<noteq> i) (timeouts s)\<rparr>)"

definition setTimeout :: "nat \<Rightarrow> state \<Rightarrow> nat \<times> state" where
  "setTimeout ms s =
     (next_timeout s,
      s\<lparr>timeouts := timeouts s @ [(next_timeout s, clock s + ms)],
        next_timeout := Suc (next_timeout s)\<rparr>)"

definition startTimer :: "state \<Rightarrow> state" where
  "startTimer s =
     (let s1 = (if tempShowing s = True then clearTimeout (timer s) s
                else s\<lparr>tempShowing := True\<rparr>);
          (t, s2) = setTimeout (props_delay s1) s1;
          s3 = s2\<lparr>timer := Some t\<rparr>
      in if has_onScroll s3 = True
         then s3\<lparr>emitScroll_calls := Suc (emitScroll_calls s3)\<rparr>
         else s3)"

text \<open>
  One millisecond passes: the clock advances and the callback of every timeout that is
  due runs and leaves the list.
\<close>

definition tick :: "state \<Rightarrow> state" where
  "tick s =
     (let now = Suc (clock s);
          due = filter (\<lambda>p. snd p \<le> now) (timeouts s);
          s1 = s\<lparr>clock := now, timeouts := filter (\<lambda>p. \<not> snd p \<le> now) (timeouts s)\<rparr>
      in fold (\<lambda>p st. st\<lparr>tempShowing := False\<rparr>) due s1)"

section \<open>Handlers\<close>

definition setScroll :: "num \<Rightarrow> axis \<Rightarrow> state \<Rightarrow> state" where
  "setScroll offset ax s =
     (case prop_scroll (dirProps ax) of
        ScrollTop \<Rightarrow> s\<lparr>scrollTop := offset\<rparr>
      | ScrollLeft \<Rightarrow> s\<lparr>scrollLeft := offset\<rparr>)"

text \<open>The property of the scroll target that \<open>setScroll\<close> assigns on an axis.\<close>

definition getScroll :: "axis \<Rightarrow> state \<Rightarrow> num" where
  "getScroll ax s =
     (case prop_scroll (dirProps ax) of
        ScrollTop \<Rightarrow> scrollTop s
      | ScrollLeft \<Rightarrow> scrollLeft s)"

definition wrong_axis_message :: string where
  "wrong_axis_message =
     ''[QScrollArea]: wrong first param of setScrollPosition (vertical/horizontal)''"

text \<open>
  The public \<open>setScrollPosition\<close>. Its first argument is whatever the caller passes, a
  string here. A call of \<open>setVerticalScrollPosition\<close> or \<open>setHorizontalScrollPosition\<close>
  (of \<open>utils/scroll.js\<close>) on the scroll target is recorded with its arguments.
\<close>

definition localSetScrollPosition :: "string \<Rightarrow> num \<Rightarrow> num option \<Rightarrow> state \<Rightarrow> state" where
  "localSetScrollPosition axis offset duration s =
     (if (axis \<in> set axisList) = False
      then s\<lparr>console_errors := console_errors s @ [wrong_axis_message]\<rparr>
      else
        let fn = (if axis = ''vertical'' then Vertical else Horizontal)
        in s\<lparr>scroll_calls := scroll_calls s @ [(fn, offset, duration)]\<rparr>)"

text \<open>
  \<open>scroll[axis]\<close> and \<open>container[axis]\<close> for a caller's string: \<open>undefined\<close> for any
  other key, and reading \<open>.size\<close> of it throws a \<open>TypeError\<close>.
\<close>

datatype js_error = TypeError

fun axis_of :: "string \<Rightarrow> axis option" where
  "axis_of axis =
     (if axis = ''vertical'' then Some Vertical
      else if axis = ''horizontal'' then Some Horizontal
      else None)"

definition setScrollPercentage ::
  "string \<Rightarrow> num \<Rightarrow> num option \<Rightarrow> state \<Rightarrow> js_error + state" where
  "setScrollPercentage axis pct duration s =
     (case axis_of axis of
        None \<Rightarrow> Inl TypeError
      | Some ax \<Rightarrow>
          Inr (localSetScrollPosition axis
                 (pct * (scroll_size ax s - container ax s)) duration s))"

definition updateContainer :: "num \<Rightarrow> num \<Rightarrow> state \<Rightarrow> state" where
  "updateContainer height width s =
     (let (s1, change1) =
            (if \<not> strict_eq (container_vertical s) height
             then (s\<lparr>container_vertical := height\<rparr>, True) else (s, False));
          (s2, change2) =
            (if \<not> strict_eq (container_horizontal s1) width
             then (s1\<lparr>container_horizontal := width\<rparr>, True) else (s1, change1))
      in if change2 = True then startTimer s2 else s2)"

definition updateScroll :: "num \<Rightarrow> num \<Rightarrow> state \<Rightarrow> state" where
  "updateScroll position_top position_left s =
     (let (s1, change1) =
            (if \<not> strict_eq (vertical_position s) position_top
             then (s\<lparr>vertical_position := position_top\<rparr>, True) else (s, False));
          (s2, change2) =
            (if \<not> strict_eq (horizontal_position s1) position_left
             then (s1\<lparr>horizontal_position := position_left\<rparr>, True) else (s1, change1))
      in if change2 = True then startTimer s2 else s2)"

definition updateScrollSize :: "num \<Rightarrow> num \<Rightarrow> state \<Rightarrow> state" where
  "updateScrollSize height width s =
     (let s1 = (if \<not> strict_eq (horizontal_size s) width
                then startTimer (s\<lparr>horizontal_size := width\<rparr>) else s)
      in if \<not> strict_eq (vertical_size s1) height
         then startTimer (s1\<lparr>vertical_size := height\<rparr>) else s1)"

text \<open>A pan event of the \<open>TouchPan\<close> directive, with the fields the handler reads.\<close>

record pan_event =
  isFirst :: bool
  isFinal :: bool
  distance_x :: num
  distance_y :: num
  direction :: direction

fun distance :: "pan_event \<Rightarrow> dist_key \<Rightarrow> num" where
  "distance e X = distance_x e"
| "distance e Y = distance_y e"

text \<open>
  The head of \<open>onPanThumb\<close>, up to the point where the handler has either returned
  (\<open>None\<close>) or goes on with the state it has reached.
\<close>

definition pan_guard :: "pan_event \<Rightarrow> axis \<Rightarrow> state \<Rightarrow> state option" where
  "pan_guard e ax s =
     (if isFirst e = True then
        (if thumbHidden ax s = True then None
         else Some (s\<lparr>panRefPos := Some (position ax s), panning := True\<rparr>))
      else if panning s \<noteq> True then None
      else Some s)"

text \<open>
  The multiplier and the position of the second half of \<open>onPanThumb\<close>.
  \<open>panRefPos\<close> is \<open>undefined\<close> until the first drag; in arithmetic that is \<open>NaN\<close>.
\<close>

fun to_number :: "num option \<Rightarrow> num" where
  "to_number None = NaN"
| "to_number (Some r) = r"

definition pan_multiplier :: "axis \<Rightarrow> state \<Rightarrow> num" where
  "pan_multiplier ax s =
     (let containerSize = container ax s
      in (scroll_size ax s - containerSize) / (containerSize - thumbSize ax s))"

definition pan_sign :: "pan_event \<Rightarrow> axis \<Rightarrow> num" where
  "pan_sign e ax = (if direction e = prop_dir (dirProps ax) then Fin 1 else Fin (- 1))"

definition pan_pos :: "pan_event \<Rightarrow> axis \<Rightarrow> state \<Rightarrow> num" where
  "pan_pos e ax s =
     (let dProp = dirProps ax;
          multiplier = pan_multiplier ax s;
          distance = distance e (prop_dist dProp)
      in to_number (panRefPos s) + pan_sign e ax * distance * multiplier)"

definition onPanThumb :: "pan_event \<Rightarrow> axis \<Rightarrow> state \<Rightarrow> state" where
  "onPanThumb e ax s =
     (case pan_guard e ax s of
        None \<Rightarrow> s
      | Some s1 \<Rightarrow>
          let s2 = (if isFinal e = True then s1\<lparr>panning := False\<rparr> else s1)
          in setScroll (pan_pos e ax s2) ax s2)"

record mouse_event =
  offsetX :: num
  offsetY :: num

fun mouse_offset :: "mouse_event \<Rightarrow> offset_key \<Rightarrow> num" where
  "mouse_offset evt OffsetX = offsetX evt"
| "mouse_offset evt OffsetY = offsetY evt"

definition onMousedown :: "mouse_event \<Rightarrow> axis \<Rightarrow> state \<Rightarrow> state" where
  "onMousedown evt ax s =
     (if thumbHidden ax s \<noteq> True then
        let pos = mouse_offset evt (prop_offset (dirProps ax)) - thumbSize ax s / Fin 2;
            s1 = setScroll (pos / container ax s * scroll_size ax s) ax s
        in if thumb_ref ax s1 then s1\<lparr>dispatched := dispatched s1 @ [ax]\<rparr> else s1
      else s)"

definition onMouseenter :: "state \<Rightarrow> state" where
  "onMouseenter s = s\<lparr>hover := True\<rparr>"

definition onMouseleave :: "state \<Rightarrow> state" where
  "onMouseleave s = s\<lparr>hover := False\<rparr>"

section \<open>Runs\<close>

text \<open>
  What can happen to a scroll area: a callback of one of its observers, a gesture, a
  call of its public interface, or the passing of a millisecond. An exception thrown by
  \<open>setScrollPercentage\<close> goes to its caller and leaves the state as it was.
\<close>

datatype event =
    ContainerResize num num
  | ContentResize num num
  | NativeScroll num num
  | PanThumb pan_event axis
  | Mousedown mouse_event axis
  | Mouseenter
  | Mouseleave
  | SetScrollPosition string num "num option"
  | SetScrollPercentage string num "num option"
  | Tick

fun step :: "event \<Rightarrow> state \<Rightarrow> state" where
  "step (ContainerResize height width) s = updateContainer height width s"
| "step (ContentResize height width) s = updateScrollSize height width s"
| "step (NativeScroll position_top position_left) s =
     updateScroll position_top position_left s"
| "step (PanThumb e ax) s = onPanThumb e ax s"
| "step (Mousedown evt ax) s = onMousedown evt ax s"
| "step Mouseenter s = onMouseenter s"
| "step Mouseleave s = onMouseleave s"
| "step (SetScrollPosition axis offset duration) s =
     localSetScrollPosition axis offset duration s"
| "step (SetScrollPercentage axis pct duration) s =
     (case setScrollPercentage axis pct duration s of Inl err \<Rightarrow> s | Inr s' \<Rightarrow> s')"
| "step Tick s = tick s"

definition run :: "event list \<Rightarrow> state \<Rightarrow> state" where
  "run evs s = fold step evs s"

section \<open>The visibility timer over time\<close>

text \<open>The state \<open>setup\<close> builds for given props, with or without an \<open>onScroll\<close> listener.\<close>

definition mounted :: "bool option \<Rightarrow> nat \<Rightarrow> bool \<Rightarrow> state" where
  "mounted visible delay listener =
     init\<lparr>props_visible := visible, props_delay := delay, has_onScroll := listener\<rparr>"

text \<open>
  Calls of \<open>startTimer\<close> separated by the given numbers of milliseconds: a call, the
  first gap, a call, the second gap, and so on, ending with a call.
\<close>

fun notify_gaps :: "nat list \<Rightarrow> state \<Rightarrow> state" where
  "notify_gaps [] s = startTimer s"
| "notify_gaps (g # gs) s = notify_gaps gs (run (replicate g Tick) (startTimer s))"

text \<open>
  What ties the flag to the event loop: the thumb is temporarily shown exactly when a
  timeout is pending, there is at most one, and \<open>timer\<close> holds its identifier.
\<close>

definition timer_inv :: "state \<Rightarrow> bool" where
  "timer_inv s =
     (case timeouts s of
        [] \<Rightarrow> \<not> tempShowing s
      | [p] \<Rightarrow> tempShowing s \<and> timer s = Some (fst p)
      | _ \<Rightarrow> False)"

section \<open>Example states\<close>

text \<open>
  The example of the specification: a vertical container of 200 pixels over a content
  of 1000 pixels, scrolled to 400.
\<close>

definition spec_example :: state where
  "spec_example = init\<lparr>container_vertical := Fin 200, vertical_size := Fin 1000,
     vertical_position := Fin 400\<rparr>"

text \<open>A container lower than the minimal thumb: 30 pixels over a content of 100.\<close>

definition narrow_example :: state where
  "narrow_example = init\<lparr>container_vertical := Fin 30, vertical_size := Fin 100\<rparr>"

text \<open>
  A thumb as long as its track: a container of 50 pixels over a content of 100, the
  pointer over the scroll area, the content scrolled to 10. Once at rest, once in the
  middle of a drag that started there.
\<close>

definition full_track_idle :: state where
  "full_track_idle = init\<lparr>container_vertical := Fin 50, vertical_size := Fin 100,
     vertical_position := Fin 10, hover := True\<rparr>"

definition full_track_drag :: state where
  "full_track_drag = full_track_idle\<lparr>panning := True, panRefPos := Some (Fin 10)\<rparr>"

text \<open>The example of the specification with the pointer over it, at rest and in a drag.\<close>

definition spec_hover :: state where
  "spec_hover = spec_example\<lparr>hover := True\<rparr>"

definition spec_drag :: state where
  "spec_drag = spec_hover\<lparr>panning := True, panRefPos := Some (Fin 400)\<rparr>"

text \<open>A pan event of a vertical gesture.\<close>

definition pan_y :: "bool \<Rightarrow> bool \<Rightarrow> rat \<Rightarrow> direction \<Rightarrow> pan_event" where
  "pan_y first final d dir =
     \<lparr>isFirst = first, isFinal = final, distance_x = Fin 0, distance_y = Fin d,
      direction = dir\<rparr>"


text \<open>Some events before the timer is watched: a resize, a millisecond, a scroll.\<close>

definition busy_run :: "event list" where
  "busy_run = [ContainerResize (Fin 200) (Fin 300), Tick, NativeScroll (Fin 5) (Fin 0)]"

section \<open>Facts about numbers\<close>

lemma Math_round_Fin: "Math_round (Fin a) = Fin (of_int (round a))"
  by (simp add: round_def)

declare Math_round.simps(1) [simp del]

lemma Math_round_numeral [simp]: "Math_round (Fin (numeral n)) = Fin (numeral n)"
  by (simp add: Math_round_Fin)

lemma Math_round_zero [simp]: "Math_round (Fin 0) = Fin 0"
  by (simp add: Math_round_Fin)

lemma between_Fin:
  "lo < hi \<Longrightarrow> between (Fin v) (Fin lo) (Fin hi) = Fin (min hi (max lo v))"
  by (auto simp: between_def Math_min_def Math_max_def min_def max_def)



section \<open>Percentage\<close>




section \<open>Thumb size\<close>

lemma thumbSize_small_container:
  assumes "container ax s = Fin c" and "c \<le> 50"
  shows "thumbSize ax s = Fin 50"
  using assms by (simp add: thumbSize_def between_def)

lemma thumbSize_large_container:
  assumes "container ax s = Fin c" and "scroll_size ax s = Fin sz"
    and "50 < c" and "c < sz"
  shows "thumbSize ax s = Fin (of_int (round (min c (max 50 (c * c / sz)))))"
  using assms by (simp add: thumbSize_def between_Fin Math_round_Fin)

text \<open>
  Claim C2, as the code has it. With a container of 200 and a content of 1000 the
  quotient \<open>200 * 200 / 1000\<close> is 40, below the lower bound of the clamp: the thumb
  size is 50.
\<close>

theorem thumbSize_spec_example:
  assumes "container ax s = Fin 200" and "scroll_size ax s = Fin 1000"
  shows "thumbSize ax s = Fin 50"
  using assms by (simp add: thumbSize_large_container)

theorem thumbSize_spec_example_witness:
  "container Vertical spec_example = Fin 200
   \<and> scroll_size Vertical spec_example = Fin 1000
   \<and> thumbSize Vertical spec_example = Fin 50"
proof -
  have c: "container Vertical spec_example = Fin 200"
    and sz: "scroll_size Vertical spec_example = Fin 1000"
    by (simp_all add: spec_example_def init_def)
  from thumbSize_spec_example [OF c sz] c sz show ?thesis by simp
qed

text \<open>Claim C2 as stated fails: the thumb size of that state is not 40.\<close>

theorem thumbSize_not_40:
  "thumbSize Vertical spec_example \<noteq> Fin 40"
  by (simp add: thumbSize_def between_def Math_min_def Math_max_def
      spec_example_def init_def)

text \<open>
  Claim C5, as the code has it. On an axis whose content extent is larger than its
  container extent, the thumb size is at least 50. It is exactly 50, and so exceeds the
  container, when the container extent is below 50. It is at most the container extent
  when that extent is at least 50 and a whole number of pixels.
\<close>

theorem thumbSize_bounds:
  assumes "container ax s = Fin c" and "scroll_size ax s = Fin sz" and "c < sz"
  shows "Fin 50 \<le> thumbSize ax s
    \<and> (c \<le> 50 \<longrightarrow> thumbSize ax s = Fin 50)
    \<and> (50 \<le> c \<and> c \<in> \<int> \<longrightarrow> thumbSize ax s \<le> container ax s)"
proof (cases "c \<le> 50")
  case True
  then have t: "thumbSize ax s = Fin 50"
    using assms(1) by (rule thumbSize_small_container [rotated])
  with True assms(1) show ?thesis by auto
next
  case False
  then have c50: "50 < c" by simp
  let ?v = "min c (max 50 (c * c / sz))"
  have t: "thumbSize ax s = Fin (of_int (round ?v))"
    using assms c50 by (simp add: thumbSize_large_container)
  have lo: "50 \<le> ?v" using c50 by simp
  have hi: "?v \<le> c" by simp
  have "round (50 :: rat) \<le> round ?v" using lo by (rule round_mono)
  then have lo': "(50 :: int) \<le> round ?v" by simp
  have hi': "c \<in> \<int> \<Longrightarrow> of_int (round ?v) \<le> c"
  proof -
    assume "c \<in> \<int>"
    then obtain k where k: "c = of_int k" by (auto elim: Ints_cases)
    have "round ?v \<le> round c" using hi by (rule round_mono)
    then show ?thesis by (simp add: k)
  qed
  from lo' have "(50 :: rat) \<le> of_int (round ?v)" by linarith
  with t hi' assms(1) False show ?thesis by auto
qed

theorem thumbSize_bounds_witness:
  "Fin 50 \<le> thumbSize Vertical spec_example
   \<and> thumbSize Vertical spec_example \<le> container Vertical spec_example
   \<and> thumbSize Vertical narrow_example = Fin 50"
proof -
  have c: "container Vertical spec_example = Fin 200"
    and sz: "scroll_size Vertical spec_example = Fin 1000"
    by (simp_all add: spec_example_def init_def)
  have c': "container Vertical narrow_example = Fin 30"
    and sz': "scroll_size Vertical narrow_example = Fin 100"
    by (simp_all add: narrow_example_def init_def)
  have "(200 :: rat) < 1000" and "(30 :: rat) < 100" by simp_all
  with thumbSize_bounds [OF c sz] thumbSize_bounds [OF c' sz']
  show ?thesis by simp
qed

text \<open>
  Claim C5 as stated fails: with a container of 30 over a content of 100 the content
  is the larger and the thumb, 50 pixels, is larger than the container.
\<close>

theorem thumbSize_exceeds_container:
  "container Vertical narrow_example < scroll_size Vertical narrow_example
   \<and> \<not> (Fin 50 \<le> thumbSize Vertical narrow_example
        \<and> thumbSize Vertical narrow_example \<le> container Vertical narrow_example)"
  by (simp add: thumbSize_def between_def narrow_example_def init_def)

section \<open>Facts about the handlers\<close>

text \<open>
  The geometry of an axis reads the container extent, the content extent and the
  position only: the flags of a drag and the scroll target do not enter it.
\<close>

lemma geometry_scroll_update [simp]:
  "container ax (s\<lparr>scrollTop := v\<rparr>) = container ax s"
  "container ax (s\<lparr>scrollLeft := v\<rparr>) = container ax s"
  "scroll_size ax (s\<lparr>scrollTop := v\<rparr>) = scroll_size ax s"
  "scroll_size ax (s\<lparr>scrollLeft := v\<rparr>) = scroll_size ax s"
  "position ax (s\<lparr>scrollTop := v\<rparr>) = position ax s"
  "position ax (s\<lparr>scrollLeft := v\<rparr>) = position ax s"
  by (cases ax, simp, simp)+

lemma geometry_pan_update [simp]:
  "container ax (s\<lparr>panning := b\<rparr>) = container ax s"
  "container ax (s\<lparr>panRefPos := r\<rparr>) = container ax s"
  "scroll_size ax (s\<lparr>panning := b\<rparr>) = scroll_size ax s"
  "scroll_size ax (s\<lparr>panRefPos := r\<rparr>) = scroll_size ax s"
  "position ax (s\<lparr>panning := b\<rparr>) = position ax s"
  "position ax (s\<lparr>panRefPos := r\<rparr>) = position ax s"
  by (cases ax, simp, simp)+

lemma thumbSize_update [simp]:
  "thumbSize ax (s\<lparr>panning := b\<rparr>) = thumbSize ax s"
  "thumbSize ax (s\<lparr>panRefPos := r\<rparr>) = thumbSize ax s"
  "thumbSize ax (s\<lparr>scrollTop := v\<rparr>) = thumbSize ax s"
  "thumbSize ax (s\<lparr>scrollLeft := v\<rparr>) = thumbSize ax s"
  by (simp_all add: thumbSize_def)

lemma pan_multiplier_update [simp]:
  "pan_multiplier ax (s\<lparr>panning := b\<rparr>) = pan_multiplier ax s"
  "pan_multiplier ax (s\<lparr>panRefPos := r\<rparr>) = pan_multiplier ax s"
  "pan_multiplier ax (s\<lparr>scrollTop := v\<rparr>) = pan_multiplier ax s"
  "pan_multiplier ax (s\<lparr>scrollLeft := v\<rparr>) = pan_multiplier ax s"
  by (simp_all add: pan_multiplier_def)

lemma pan_pos_panning [simp]:
  "pan_pos e ax (s\<lparr>panning := b\<rparr>) = pan_pos e ax s"
  by (simp add: pan_pos_def)

lemma setScroll_cases:
  "setScroll v ax s = s\<lparr>scrollTop := v\<rparr> \<or> setScroll v ax s = s\<lparr>scrollLeft := v\<rparr>"
  by (cases ax) (simp_all add: setScroll_def)

lemma getScroll_setScroll [simp]: "getScroll ax (setScroll v ax s) = v"
  by (cases ax) (simp_all add: getScroll_def setScroll_def)

lemma thumbHidden_scroll_update [simp]:
  "thumbHidden ax (s\<lparr>scrollTop := v\<rparr>) = thumbHidden ax s"
  "thumbHidden ax (s\<lparr>scrollLeft := v\<rparr>) = thumbHidden ax s"
  by (simp_all add: thumbHidden_def split: option.split)

lemma setScroll_fields [simp]:
  "panning (setScroll v ax s) = panning s"
  "panRefPos (setScroll v ax s) = panRefPos s"
  "container ax' (setScroll v ax s) = container ax' s"
  "scroll_size ax' (setScroll v ax s) = scroll_size ax' s"
  "position ax' (setScroll v ax s) = position ax' s"
  "thumbSize ax' (setScroll v ax s) = thumbSize ax' s"
  "thumbHidden ax' (setScroll v ax s) = thumbHidden ax' s"
  using setScroll_cases [of v ax s] by auto

text \<open>The four ways through \<open>onPanThumb\<close>.\<close>

lemma onPanThumb_hidden_first:
  "isFirst e \<Longrightarrow> thumbHidden ax s \<Longrightarrow> onPanThumb e ax s = s"
  by (simp add: onPanThumb_def pan_guard_def)

lemma onPanThumb_idle:
  "\<not> isFirst e \<Longrightarrow> \<not> panning s \<Longrightarrow> onPanThumb e ax s = s"
  by (simp add: onPanThumb_def pan_guard_def)

lemma onPanThumb_first:
  assumes "isFirst e" and "\<not> thumbHidden ax s"
  shows "onPanThumb e ax s =
    setScroll (pan_pos e ax (s\<lparr>panRefPos := Some (position ax s)\<rparr>)) ax
      (s\<lparr>panRefPos := Some (position ax s), panning := \<not> isFinal e\<rparr>)"
  using assms by (cases "isFinal e") (simp_all add: onPanThumb_def pan_guard_def Let_def)

lemma onPanThumb_active:
  assumes "\<not> isFirst e" and "panning s"
  shows "onPanThumb e ax s =
    setScroll (pan_pos e ax s) ax (if isFinal e then s\<lparr>panning := False\<rparr> else s)"
  using assms by (cases "isFinal e") (simp_all add: onPanThumb_def pan_guard_def Let_def)

lemma pan_multiplier_Fin:
  assumes "container ax s = Fin c" and "scroll_size ax s = Fin sz"
    and "thumbSize ax s = Fin t"
  shows "pan_multiplier ax s =
    (if c = t then (if sz = c then NaN else if c < sz then PInf else NInf)
     else Fin ((sz - c) / (c - t)))"
  using assms by (simp add: pan_multiplier_def Let_def)

section \<open>The drag multiplier\<close>

text \<open>
  Claim C3, as the code has it. The multiplier of a drag is the quotient
  \<open>(contentExtent - containerExtent) / (containerExtent - thumbSize)\<close>, computed
  without a guard on the denominator. On an axis whose content is larger than its
  container: when the thumb fills the track the denominator is zero and the multiplier
  is \<open>+Infinity\<close>; otherwise it is the finite quotient, which is negative when the
  thumb is longer than the container. With the infinite multiplier a pan event of an
  active drag writes \<open>+Infinity\<close> or \<open>-Infinity\<close> to the scroll target, and \<open>NaN\<close>
  when its distance is zero.
\<close>

theorem pan_multiplier_unguarded:
  assumes "container ax s = Fin c" and "scroll_size ax s = Fin sz"
    and "thumbSize ax s = Fin t" and "c < sz"
  shows "(c = t \<longrightarrow> pan_multiplier ax s = PInf)
    \<and> (c \<noteq> t \<longrightarrow> pan_multiplier ax s = Fin ((sz - c) / (c - t)))
    \<and> (c < t \<longrightarrow> (sz - c) / (c - t) < 0)
    \<and> (c = t \<and> panning s \<and> \<not> isFirst e \<and> panRefPos s = Some (Fin r)
         \<and> distance e (prop_dist (dirProps ax)) = Fin d
       \<longrightarrow> getScroll ax (onPanThumb e ax s)
           = (if d = 0 then NaN
              else if (direction e = prop_dir (dirProps ax)) = (0 < d) then PInf
              else NInf))"
proof -
  have m: "pan_multiplier ax s = (if c = t then PInf else Fin ((sz - c) / (c - t)))"
    using assms by (simp add: pan_multiplier_Fin)
  have neg: "c < t \<Longrightarrow> (sz - c) / (c - t) < 0"
    using assms(4) by (simp add: divide_pos_neg)
  have w: "getScroll ax (onPanThumb e ax s)
           = (if d = 0 then NaN
              else if (direction e = prop_dir (dirProps ax)) = (0 < d) then PInf
              else NInf)"
    if "c = t" and "panning s" and "\<not> isFirst e" and "panRefPos s = Some (Fin r)"
      and "distance e (prop_dist (dirProps ax)) = Fin d"
  proof -
    have "getScroll ax (onPanThumb e ax s) = pan_pos e ax s"
      using that(2,3) by (simp add: onPanThumb_active)
    also have "\<dots> = Fin r + pan_sign e ax * Fin d * PInf"
      using that m by (simp add: pan_pos_def Let_def)
    also have "\<dots> = (if d = 0 then NaN
              else if (direction e = prop_dir (dirProps ax)) = (0 < d) then PInf
              else NInf)"
      by (simp add: pan_sign_def)
    finally show ?thesis .
  qed
  from m neg w show ?thesis by simp
qed


section \<open>Facts about the example states\<close>

lemma full_track_drag_geometry:
  "container Vertical full_track_drag = Fin 50"
  "scroll_size Vertical full_track_drag = Fin 100"
  "thumbSize Vertical full_track_drag = Fin 50"
  "panning full_track_drag"
  "panRefPos full_track_drag = Some (Fin 10)"
  by (simp_all add: full_track_drag_def full_track_idle_def init_def thumbSize_def between_def)

lemma narrow_example_geometry:
  "container Vertical narrow_example = Fin 30"
  "scroll_size Vertical narrow_example = Fin 100"
  "thumbSize Vertical narrow_example = Fin 50"
  by (simp_all add: narrow_example_def init_def thumbSize_def between_def)

text \<open>
  The two degenerate cases at work: a thumb of 50 in a container of 50, dragged upwards
  by 10 pixels, and a thumb of 50 in a container of 30.
\<close>

theorem pan_multiplier_unguarded_witness:
  "pan_multiplier Vertical full_track_drag = PInf
   \<and> getScroll Vertical (onPanThumb (pan_y False False 10 Up) Vertical full_track_drag) = NInf
   \<and> pan_multiplier Vertical narrow_example = Fin (- (7 / 2))"
proof -
  have lt: "(50 :: rat) < 100" and lt': "(30 :: rat) < 100" by simp_all
  have e: "\<not> isFirst (pan_y False False 10 Up)"
    "distance (pan_y False False 10 Up) (prop_dist (dirProps Vertical)) = Fin 10"
    "direction (pan_y False False 10 Up) \<noteq> prop_dir (dirProps Vertical)"
    by (simp_all add: pan_y_def)
  from pan_multiplier_unguarded [OF full_track_drag_geometry(1,2,3) lt,
      of "pan_y False False 10 Up" 10 10]
    pan_multiplier_unguarded [OF narrow_example_geometry lt']
    full_track_drag_geometry(4,5) e
  show ?thesis by simp
qed

text \<open>
  Claim C3 as stated fails: in a drag over a thumb that fills its track, the denominator
  is zero, the multiplier is not zero, and a pan event of 10 pixels downwards writes
  \<open>+Infinity\<close> to the scroll target instead of the reference position 10.
\<close>

theorem pan_full_track_scrolls:
  "panning full_track_drag
   \<and> container Vertical full_track_drag - thumbSize Vertical full_track_drag = Fin 0
   \<and> pan_multiplier Vertical full_track_drag \<noteq> Fin 0
   \<and> panRefPos full_track_drag = Some (Fin 10)
   \<and> scrollTop (onPanThumb (pan_y False False 10 Down) Vertical full_track_drag) = PInf"
  by code_simp

section \<open>Degenerate geometry\<close>








section \<open>Starting and ending a drag\<close>

text \<open>
  Claim C6. A pan event with \<open>isFirst\<close> gets past the head of the handler exactly when
  the thumb of its axis is not hidden, and then with the reference position set to the
  current position and \<open>panning\<close> set. When the thumb is hidden the handler returns
  and the state is what it was. When it is not, the state the handler leaves has the
  reference position, and \<open>panning\<close> unless the same event is also the final one.
  A pan event without \<open>isFirst\<close> that arrives while no drag is active changes
  nothing.
\<close>

theorem pan_start_iff_visible:
  "(isFirst e \<longrightarrow>
      pan_guard e ax s
        = (if thumbHidden ax s then None
           else Some (s\<lparr>panRefPos := Some (position ax s), panning := True\<rparr>))
      \<and> (thumbHidden ax s \<longrightarrow> onPanThumb e ax s = s)
      \<and> (\<not> thumbHidden ax s \<longrightarrow>
            panRefPos (onPanThumb e ax s) = Some (position ax s)
            \<and> panning (onPanThumb e ax s) = (\<not> isFinal e)))
   \<and> (\<not> isFirst e \<and> \<not> panning s \<longrightarrow> onPanThumb e ax s = s)"
  by (simp add: pan_guard_def onPanThumb_hidden_first onPanThumb_idle onPanThumb_first)

text \<open>
  The example of the specification: with the pointer over it a first pan event starts a
  drag at 400; without, the thumb is hidden and the event is ignored; a pan event that
  is not the first is ignored while no drag is active.
\<close>

theorem pan_start_iff_visible_witness:
  "\<not> thumbHidden Vertical spec_hover
   \<and> pan_guard (pan_y True False 0 Down) Vertical spec_hover
        = Some (spec_hover\<lparr>panRefPos := Some (Fin 400), panning := True\<rparr>)
   \<and> panRefPos (onPanThumb (pan_y True False 0 Down) Vertical spec_hover) = Some (Fin 400)
   \<and> panning (onPanThumb (pan_y True False 0 Down) Vertical spec_hover)
   \<and> thumbHidden Vertical spec_example
   \<and> onPanThumb (pan_y True False 0 Down) Vertical spec_example = spec_example
   \<and> onPanThumb (pan_y False False 5 Down) Vertical spec_hover = spec_hover"
proof -
  have v: "\<not> thumbHidden Vertical spec_hover" "position Vertical spec_hover = Fin 400"
    "\<not> panning spec_hover"
    by (simp_all add: spec_hover_def spec_example_def init_def thumbHidden_def)
  have h: "thumbHidden Vertical spec_example"
    by (simp add: spec_example_def init_def thumbHidden_def)
  have e: "isFirst (pan_y True False 0 Down)" "\<not> isFinal (pan_y True False 0 Down)"
    "\<not> isFirst (pan_y False False 5 Down)"
    by (simp_all add: pan_y_def)
  from pan_start_iff_visible [of "pan_y True False 0 Down" Vertical spec_hover]
    pan_start_iff_visible [of "pan_y True False 0 Down" Vertical spec_example]
    pan_start_iff_visible [of "pan_y False False 5 Down" Vertical spec_hover]
    v h e
  show ?thesis by simp
qed


section \<open>The position setter\<close>

text \<open>
  Claim C8. Called with an axis that is neither \<open>vertical\<close> nor \<open>horizontal\<close>, the
  position setter writes one line with \<open>console.error\<close> and does nothing else: no
  scroll function is called, the scroll target is not assigned, and every other
  component of the state is what it was.
\<close>

theorem invalid_axis_reported_once:
  assumes "axis \<notin> set axisList"
  shows "localSetScrollPosition axis offset duration s
           = s\<lparr>console_errors := console_errors s @ [wrong_axis_message]\<rparr>
    \<and> scroll_calls (localSetScrollPosition axis offset duration s) = scroll_calls s
    \<and> scrollTop (localSetScrollPosition axis offset duration s) = scrollTop s
    \<and> scrollLeft (localSetScrollPosition axis offset duration s) = scrollLeft s
    \<and> step (SetScrollPosition axis offset duration) s
           = s\<lparr>console_errors := console_errors s @ [wrong_axis_message]\<rparr>"
  using assms by (simp add: localSetScrollPosition_def)

text \<open>The axis \<open>diagonal\<close>.\<close>

theorem invalid_axis_diagonal:
  "''diagonal'' \<notin> set axisList
   \<and> localSetScrollPosition ''diagonal'' (Fin 120) None spec_hover
        = spec_hover\<lparr>console_errors := [wrong_axis_message]\<rparr>
   \<and> scroll_calls (localSetScrollPosition ''diagonal'' (Fin 120) None spec_hover) = []"
proof -
  have d: "''diagonal'' \<notin> set axisList" by (simp add: axisList_def)
  have c: "console_errors spec_hover = []" "scroll_calls spec_hover = []"
    by (simp_all add: spec_hover_def spec_example_def init_def)
  from invalid_axis_reported_once [OF d, of "Fin 120" None spec_hover] d c
  show ?thesis by simp
qed

section \<open>The final event of a drag\<close>

text \<open>
  Claim C10. A pan event with \<open>isFinal\<close> that the handler accepts during a drag
  clears \<open>panning\<close> and still writes its own position to the scroll target: the
  reference position (the one captured at the start of the drag, or the current
  position when the event is also a first one) plus the signed distance of this event
  times the multiplier.
\<close>

theorem final_pan_event_applies:
  assumes "isFinal e" and "panning s" and "isFirst e \<longrightarrow> \<not> thumbHidden ax s"
  shows "onPanThumb e ax s
           = setScroll
               (to_number (if isFirst e then Some (position ax s) else panRefPos s)
                  + pan_sign e ax * distance e (prop_dist (dirProps ax)) * pan_multiplier ax s)
               ax
               (s\<lparr>panRefPos := (if isFirst e then Some (position ax s) else panRefPos s),
                  panning := False\<rparr>)
    \<and> panning (onPanThumb e ax s) = False
    \<and> getScroll ax (onPanThumb e ax s)
         = to_number (if isFirst e then Some (position ax s) else panRefPos s)
             + pan_sign e ax * distance e (prop_dist (dirProps ax)) * pan_multiplier ax s"
proof (cases "isFirst e")
  case True
  with assms have "\<not> thumbHidden ax s" by simp
  with True assms(1) show ?thesis
    by (simp add: onPanThumb_first pan_pos_def Let_def)
next
  case False
  with assms(1,2) show ?thesis
    by (simp add: onPanThumb_active pan_pos_def Let_def)
qed

text \<open>
  A drag that started at 400 in the example of the specification and ends 20 pixels
  lower: the multiplier is \<open>800 / 150\<close>, and the final event writes
  \<open>400 + 20 * 16 / 3\<close>. A final event that is also a first one, 20 pixels higher,
  writes \<open>400 - 20 * 16 / 3\<close>.
\<close>

theorem final_pan_event_example:
  "panning spec_drag
   \<and> panning (onPanThumb (pan_y False True 20 Down) Vertical spec_drag) = False
   \<and> getScroll Vertical (onPanThumb (pan_y False True 20 Down) Vertical spec_drag)
        = Fin (1520 / 3)
   \<and> \<not> thumbHidden Vertical spec_drag
   \<and> panning (onPanThumb (pan_y True True 20 Up) Vertical spec_drag) = False
   \<and> getScroll Vertical (onPanThumb (pan_y True True 20 Up) Vertical spec_drag)
        = Fin (880 / 3)"
proof -
  have e: "isFinal (pan_y False True 20 Down)" "\<not> isFirst (pan_y False True 20 Down)"
    "distance (pan_y False True 20 Down) (prop_dist (dirProps Vertical)) = Fin 20"
    "pan_sign (pan_y False True 20 Down) Vertical = Fin 1"
    by (simp_all add: pan_y_def pan_sign_def)
  have e': "isFinal (pan_y True True 20 Up)" "isFirst (pan_y True True 20 Up)"
    "distance (pan_y True True 20 Up) (prop_dist (dirProps Vertical)) = Fin 20"
    "pan_sign (pan_y True True 20 Up) Vertical = Fin (- 1)"
    by (simp_all add: pan_y_def pan_sign_def)
  have s: "panning spec_drag" "panRefPos spec_drag = Some (Fin 400)"
    "position Vertical spec_drag = Fin 400" "\<not> thumbHidden Vertical spec_drag"
    by (simp_all add: spec_drag_def spec_hover_def spec_example_def init_def
        thumbHidden_def)
  have m: "pan_multiplier Vertical spec_drag = Fin (16 / 3)"
    by code_simp
  from final_pan_event_applies [of "pan_y False True 20 Down" spec_drag Vertical]
    final_pan_event_applies [of "pan_y True True 20 Up" spec_drag Vertical] e e' s m
  show ?thesis by simp
qed

section \<open>The round trip of a drag\<close>









section \<open>The visibility timer\<close>

text \<open>
  The flag and the pending timeout go together, and every handler keeps it so.
\<close>

lemma timer_inv_iff:
  "timer_inv s \<longleftrightarrow>
     (timeouts s = [] \<and> \<not> tempShowing s)
     \<or> (\<exists>i due. timeouts s = [(i, due)] \<and> tempShowing s \<and> timer s = Some i)"
  by (auto simp: timer_inv_def split: list.splits)

lemma timer_inv_frame:
  assumes "timeouts s' = timeouts s" and "tempShowing s' = tempShowing s"
    and "timer s' = timer s"
  shows "timer_inv s' = timer_inv s"
  using assms by (simp add: timer_inv_iff)

lemma startTimer_timer:
  assumes "timer_inv s"
  shows "timeouts (startTimer s) = [(next_timeout s, clock s + props_delay s)]"
    and "tempShowing (startTimer s)"
    and "timer (startTimer s) = Some (next_timeout s)"
    and "props_delay (startTimer s) = props_delay s"
    and "clock (startTimer s) = clock s"
  using assms
  by (auto simp: timer_inv_iff startTimer_def clearTimeout_def setTimeout_def Let_def)

lemma timer_inv_startTimer: "timer_inv s \<Longrightarrow> timer_inv (startTimer s)"
  using startTimer_timer [of s] by (simp add: timer_inv_iff)

lemma tick_pending:
  assumes "timeouts s = [(i, due)]"
  shows "tick s =
    (if due \<le> Suc (clock s)
     then s\<lparr>clock := Suc (clock s), timeouts := [], tempShowing := False\<rparr>
     else s\<lparr>clock := Suc (clock s), timeouts := [(i, due)]\<rparr>)"
  using assms by (simp add: tick_def Let_def)

lemma tick_idle:
  assumes "timeouts s = []"
  shows "tick s = s\<lparr>clock := Suc (clock s), timeouts := []\<rparr>"
  using assms by (simp add: tick_def Let_def)

lemma timer_inv_tick:
  assumes "timer_inv s"
  shows "timer_inv (tick s)"
proof -
  from assms consider
    (idle) "timeouts s = []" "\<not> tempShowing s"
    | (pending) i due where "timeouts s = [(i, due)]" "tempShowing s" "timer s = Some i"
    by (auto simp: timer_inv_iff)
  then show ?thesis
  proof cases
    case idle
    then show ?thesis by (simp add: tick_idle timer_inv_iff)
  next
    case pending
    then show ?thesis by (simp add: tick_pending timer_inv_iff)
  qed
qed


lemma timer_inv_update [simp]:
  "timer_inv (s\<lparr>container_vertical := n\<rparr>) = timer_inv s"
  "timer_inv (s\<lparr>container_horizontal := n\<rparr>) = timer_inv s"
  "timer_inv (s\<lparr>vertical_position := n\<rparr>) = timer_inv s"
  "timer_inv (s\<lparr>horizontal_position := n\<rparr>) = timer_inv s"
  "timer_inv (s\<lparr>vertical_size := n\<rparr>) = timer_inv s"
  "timer_inv (s\<lparr>horizontal_size := n\<rparr>) = timer_inv s"
  "timer_inv (s\<lparr>scrollTop := n\<rparr>) = timer_inv s"
  "timer_inv (s\<lparr>scrollLeft := n\<rparr>) = timer_inv s"
  "timer_inv (s\<lparr>hover := b\<rparr>) = timer_inv s"
  "timer_inv (s\<lparr>panning := b\<rparr>) = timer_inv s"
  "timer_inv (s\<lparr>panRefPos := r\<rparr>) = timer_inv s"
  "timer_inv (s\<lparr>console_errors := errs\<rparr>) = timer_inv s"
  "timer_inv (s\<lparr>scroll_calls := calls\<rparr>) = timer_inv s"
  "timer_inv (s\<lparr>dispatched := axes\<rparr>) = timer_inv s"
  by (simp_all add: timer_inv_iff)

lemma props_delay_startTimer [simp]: "props_delay (startTimer s) = props_delay s"
  by (simp add: startTimer_def clearTimeout_def setTimeout_def Let_def split: option.split)

lemma props_delay_tick [simp]: "props_delay (tick s) = props_delay s"
proof -
  have f: "props_delay (fold (\<lambda>p st. st\<lparr>tempShowing := False\<rparr>) ps st) = props_delay st"
    for ps :: "(nat \<times> nat) list" and st
    by (induction ps arbitrary: st) simp_all
  show ?thesis by (simp add: tick_def Let_def f)
qed

lemma setScroll_timer [simp]:
  "timer_inv (setScroll v ax s) = timer_inv s"
  "props_delay (setScroll v ax s) = props_delay s"
  using setScroll_cases [of v ax s] by auto

lemma timer_inv_updateContainer:
  "timer_inv s \<Longrightarrow> timer_inv (updateContainer height width s)"
  by (simp add: updateContainer_def timer_inv_startTimer)

lemma timer_inv_updateScroll:
  "timer_inv s \<Longrightarrow> timer_inv (updateScroll position_top position_left s)"
  by (simp add: updateScroll_def timer_inv_startTimer)

lemma timer_inv_updateScrollSize:
  "timer_inv s \<Longrightarrow> timer_inv (updateScrollSize height width s)"
  by (simp add: updateScrollSize_def timer_inv_startTimer Let_def)

lemma timer_inv_onPanThumb: "timer_inv (onPanThumb e ax s) = timer_inv s"
  by (simp add: onPanThumb_def pan_guard_def Let_def)

lemma timer_inv_onMousedown: "timer_inv (onMousedown evt ax s) = timer_inv s"
  by (simp add: onMousedown_def Let_def)

lemma timer_inv_localSetScrollPosition:
  "timer_inv (localSetScrollPosition axis offset duration s) = timer_inv s"
  by (simp add: localSetScrollPosition_def Let_def)

lemma timer_inv_step: "timer_inv s \<Longrightarrow> timer_inv (step e s)"
  by (cases e)
    (simp_all add: timer_inv_updateContainer timer_inv_updateScroll
      timer_inv_updateScrollSize timer_inv_onPanThumb timer_inv_onMousedown
      timer_inv_localSetScrollPosition timer_inv_tick onMouseenter_def onMouseleave_def
      setScrollPercentage_def split: option.split)

lemma props_delay_step: "props_delay (step e s) = props_delay s"
  by (cases e)
    (simp_all add: updateContainer_def updateScroll_def updateScrollSize_def
      onPanThumb_def pan_guard_def onMousedown_def onMouseenter_def onMouseleave_def
      localSetScrollPosition_def setScrollPercentage_def Let_def split: option.split)

lemma run_invariants:
  "timer_inv s \<Longrightarrow> timer_inv (run evs s)"
  "props_delay (run evs s) = props_delay s"
  by (induction evs arbitrary: s) (simp_all add: run_def timer_inv_step props_delay_step)

lemma mounted_invariants:
  "timer_inv (mounted visible delay listener)"
  "props_delay (mounted visible delay listener) = delay"
  by (simp_all add: mounted_def init_def timer_inv_iff)


text \<open>Time passing, with a timeout pending or with none.\<close>

lemma run_Tick: "run (Tick # evs) s = run evs (tick s)"
  by (simp add: run_def)

lemma ticks_idle:
  assumes "timeouts s = []" and "\<not> tempShowing s"
  shows "timeouts (run (replicate k Tick) s) = [] \<and> \<not> tempShowing (run (replicate k Tick) s)"
  using assms
proof (induction k arbitrary: s)
  case 0
  then show ?case by (simp add: run_def)
next
  case (Suc k)
  from Suc.prems have "timeouts (tick s) = []" and "\<not> tempShowing (tick s)"
    by (simp_all add: tick_idle)
  then show ?case using Suc.IH [of "tick s"] by (simp add: run_Tick)
qed

lemma ticks_before_due:
  assumes "timeouts s = [(i, due)]" and "tempShowing s" and "clock s + k < due"
  shows "timeouts (run (replicate k Tick) s) = [(i, due)]
    \<and> tempShowing (run (replicate k Tick) s)"
  using assms
proof (induction k arbitrary: s)
  case 0
  then show ?case by (simp add: run_def)
next
  case (Suc k)
  from Suc.prems have "timeouts (tick s) = [(i, due)]" and "tempShowing (tick s)"
    and "clock (tick s) + k < due"
    by (simp_all add: tick_pending)
  then show ?case using Suc.IH [of "tick s"] by (simp add: run_Tick)
qed

lemma ticks_from_due:
  assumes "timeouts s = [(i, due)]" and "tempShowing s" and "due \<le> clock s + k" and "0 < k"
  shows "timeouts (run (replicate k Tick) s) = []
    \<and> \<not> tempShowing (run (replicate k Tick) s)"
  using assms
proof (induction k arbitrary: s)
  case 0
  then show ?case by simp
next
  case (Suc k)
  show ?case
  proof (cases "due \<le> Suc (clock s)")
    case True
    with Suc.prems have "timeouts (tick s) = []" and "\<not> tempShowing (tick s)"
      by (simp_all add: tick_pending)
    then show ?thesis using ticks_idle [of "tick s" k] by (simp add: run_Tick)
  next
    case False
    with Suc.prems have "timeouts (tick s) = [(i, due)]" and "tempShowing (tick s)"
      and "due \<le> clock (tick s) + k" and "0 < k"
      by (simp_all add: tick_pending)
    then show ?thesis using Suc.IH [of "tick s"] by (simp add: run_Tick)
  qed
qed

lemma after_startTimer:
  assumes "timer_inv s"
  shows "tempShowing (run (replicate k Tick) (startTimer s)) = (k = 0 \<or> k < props_delay s)"
    and "length (timeouts (run (replicate k Tick) (startTimer s))) \<le> 1"
proof -
  note st = startTimer_timer [OF assms]
  show "tempShowing (run (replicate k Tick) (startTimer s)) = (k = 0 \<or> k < props_delay s)"
  proof (cases "k < props_delay s")
    case True
    then have "clock (startTimer s) + k < clock s + props_delay s" by (simp add: st(5))
    from ticks_before_due [OF st(1,2) this] True show ?thesis by simp
  next
    case False
    show ?thesis
    proof (cases "k = 0")
      case True
      then show ?thesis by (simp add: run_def st(2))
    next
      case k: False
      with False have "clock s + props_delay s \<le> clock (startTimer s) + k" and "0 < k"
        by (simp_all add: st(5))
      from ticks_from_due [OF st(1,2) this] False k show ?thesis by simp
    qed
  qed
  show "length (timeouts (run (replicate k Tick) (startTimer s))) \<le> 1"
  proof (cases "clock (startTimer s) + k < clock s + props_delay s")
    case True
    from ticks_before_due [OF st(1,2) this] show ?thesis by simp
  next
    case False
    show ?thesis
    proof (cases "k = 0")
      case True
      then show ?thesis by (simp add: run_def st(1))
    next
      case k: False
      with False have "clock s + props_delay s \<le> clock (startTimer s) + k" and "0 < k"
        by simp_all
      from ticks_from_due [OF st(1,2) this] show ?thesis by simp
    qed
  qed
qed

text \<open>
  A series of calls ends with a call, made in a state where flag and timeout go
  together; and a series extended by a gap and a call is what its name says.
\<close>

lemma notify_gaps_last:
  assumes "timer_inv s"
  shows "\<exists>s'. timer_inv s' \<and> props_delay s' = props_delay s \<and> notify_gaps gs s = startTimer s'"
  using assms
proof (induction gs arbitrary: s)
  case Nil
  then show ?case by auto
next
  case (Cons g gs)
  let ?s1 = "run (replicate g Tick) (startTimer s)"
  from Cons.prems have "timer_inv ?s1" and "props_delay ?s1 = props_delay s"
    by (simp_all add: run_invariants timer_inv_startTimer)
  with Cons.IH [of ?s1] show ?case by auto
qed

lemma notify_gaps_snoc:
  "notify_gaps (gs @ [g]) s = startTimer (run (replicate g Tick) (notify_gaps gs s))"
  by (induction gs arbitrary: s) simp_all

lemma timer_inv_pending: "timer_inv s \<Longrightarrow> length (timeouts s) \<le> 1"
  by (auto simp: timer_inv_iff)

text \<open>
  Claim C7. In every state a scroll area reaches from the state it is set up in, by
  whatever events, at most one timeout is pending. A call of \<open>startTimer\<close> there
  leaves exactly one, the one it has just scheduled, due \<open>delay\<close> milliseconds later,
  and the thumb temporarily shown. After a series of calls at any gaps, \<open>k\<close>
  milliseconds after the last one, there is still at most one timeout pending, and the
  thumb is temporarily shown exactly when \<open>k < delay\<close> (or no time has passed at
  all, for a delay of zero): it stops being shown \<open>delay\<close> milliseconds after the
  last call. When each gap is shorter than \<open>delay\<close>, the thumb is temporarily shown
  at every millisecond of every gap.
\<close>

theorem visibility_timer:
  assumes "s = run evs (mounted visible d listener)"
  shows "length (timeouts s) \<le> 1
    \<and> timeouts (startTimer s) = [(next_timeout s, clock s + d)]
    \<and> tempShowing (startTimer s)
    \<and> length (timeouts (run (replicate k Tick) (notify_gaps gs s))) \<le> 1
    \<and> tempShowing (run (replicate k Tick) (notify_gaps gs s)) = (k = 0 \<or> k < d)
    \<and> ((\<forall>g \<in> set gs. g < d) \<longrightarrow>
          (\<forall>n < length gs. \<forall>j \<le> gs ! n.
             tempShowing (run (replicate j Tick) (notify_gaps (take n gs) s))))"
proof -
  have inv: "timer_inv s" and d: "props_delay s = d"
    using assms by (simp_all add: run_invariants mounted_invariants)
  have after: "tempShowing (run (replicate j Tick) (notify_gaps hs s)) = (j = 0 \<or> j < d)
      \<and> length (timeouts (run (replicate j Tick) (notify_gaps hs s))) \<le> 1" for j hs
  proof -
    from notify_gaps_last [OF inv, of hs] obtain s' where s': "timer_inv s'"
      "props_delay s' = props_delay s" "notify_gaps hs s = startTimer s'"
      by blast
    from after_startTimer [OF s'(1), of j] s'(2,3) d show ?thesis by simp
  qed
  have throughout: "tempShowing (run (replicate j Tick) (notify_gaps (take n gs) s))"
    if "\<forall>g \<in> set gs. g < d" and "n < length gs" and "j \<le> gs ! n" for n j
  proof -
    from that have "gs ! n < d" by simp
    with that(3) have "j < d" by simp
    with after [of j "take n gs"] show ?thesis by simp
  qed
  from inv have "length (timeouts s) \<le> 1" by (rule timer_inv_pending)
  with startTimer_timer(1,2) [OF inv] d after [of k gs] throughout
  show ?thesis by simp
qed


text \<open>
  A delay of 3 milliseconds: after a resize and a scroll, three calls at gaps of 2 and 1
  milliseconds. The thumb is shown during the first gap, still shown 2 milliseconds
  after the last call, gone after 3.
\<close>

theorem visibility_timer_witness:
  "length (timeouts (run busy_run (mounted None 3 False))) \<le> 1
   \<and> tempShowing (run (replicate 2 Tick) (notify_gaps [2, 1] (run busy_run (mounted None 3 False))))
   \<and> \<not> tempShowing (run (replicate 3 Tick) (notify_gaps [2, 1] (run busy_run (mounted None 3 False))))
   \<and> tempShowing (run (replicate 2 Tick) (notify_gaps [] (run busy_run (mounted None 3 False))))"
proof -
  let ?s = "run busy_run (mounted None 3 False)"
  note two = visibility_timer [OF refl, of busy_run None 3 False 2 "[2, 1]"]
  note three = visibility_timer [OF refl, of busy_run None 3 False 3 "[2, 1]"]
  have gaps: "\<forall>g \<in> set [2, 1 :: nat]. g < 3" by simp
  from two gaps have "\<forall>n < length [2, 1 :: nat]. \<forall>j \<le> [2, 1] ! n.
      tempShowing (run (replicate j Tick) (notify_gaps (take n [2, 1]) ?s))"
    by blast
  then have "0 < length [2, 1 :: nat] \<longrightarrow> (\<forall>j \<le> [2, 1 :: nat] ! 0.
      tempShowing (run (replicate j Tick) (notify_gaps (take 0 [2, 1]) ?s)))"
    by (rule spec)
  then have "\<forall>j \<le> 2. tempShowing (run (replicate j Tick) (notify_gaps [] ?s))"
    by simp
  then have "2 \<le> (2 :: nat) \<longrightarrow> tempShowing (run (replicate 2 Tick) (notify_gaps [] ?s))"
    by (rule spec)
  then have first_gap: "tempShowing (run (replicate 2 Tick) (notify_gaps [] ?s))"
    by simp
  from two have a: "length (timeouts ?s) \<le> 1"
    and b: "tempShowing (run (replicate 2 Tick) (notify_gaps [2, 1] ?s))"
    by simp_all
  from three have c: "\<not> tempShowing (run (replicate 3 Tick) (notify_gaps [2, 1] ?s))"
    by simp
  from a b c first_gap show ?thesis by blast
qed


end
